theory Spec2Isabelle
  imports Main "HOL-Library.Log_Nat"
begin

section \<open>The scrollback reducer of the sidebar block editor\<close>

text \<open>
  \<^verbatim>\<open>useScrollback( element, max = Infinity )\<close> keeps the last scroll offset in a ref
  (\<^verbatim>\<open>lastScrollTop\<close>) and the accumulator in the state of \<^verbatim>\<open>useReducer\<close>, which
  starts at 0. Every scroll event is passed to the reducer.

  The source computes on doubles. The reducer is given twice: first for offsets that
  are whole pixels (\<^typ>\<open>int\<close>), on which the double arithmetic is exact below
  \<open>2 ^ 53\<close>, and then, as \<open>double_reducer\<close>, with the rounding of doubles for offsets
  that have a fraction, as \<^verbatim>\<open>scrollTop\<close> has on scaled displays. The bound
  \<^verbatim>\<open>max\<close> is a number or the default \<^verbatim>\<open>Infinity\<close>.
\<close>

datatype bound = Finite int | Infinity

text \<open>\<^verbatim>\<open>Math.min( max, x )\<close> with a possibly infinite first argument.\<close>

fun Math_min :: "bound \<Rightarrow> int \<Rightarrow> int" where
  "Math_min (Finite m) x = min m x"
| "Math_min Infinity x = x"

text \<open>\<open>le_bound x b\<close> is the comparison \<^verbatim>\<open>x <= max\<close>, \<open>bound_nonneg b\<close> is \<^verbatim>\<open>max >= 0\<close>.\<close>

fun le_bound :: "int \<Rightarrow> bound \<Rightarrow> bool" where
  "le_bound x (Finite m) = (x \<le> m)"
| "le_bound x Infinity = True"

fun bound_nonneg :: "bound \<Rightarrow> bool" where
  "bound_nonneg (Finite m) = (0 \<le> m)"
| "bound_nonneg Infinity = True"

text \<open>The ref and the reducer state, which the reducer reads and writes together.\<close>

record scroll_state =
  lastScrollTop :: int
  scrollback :: int

text \<open>
  The reducer (lines 56 to 68): the new \<^verbatim>\<open>scrollTop\<close> replaces the ref, and the
  accumulator grows by an upward scroll up to \<^verbatim>\<open>max\<close>, shrinks by a downward one
  down to 0 when it is positive, and is left alone otherwise.
\<close>

definition reducer :: "bound \<Rightarrow> scroll_state \<Rightarrow> int \<Rightarrow> scroll_state" where
  "reducer mx s scrollTop =
     (let scrollDiff = scrollTop - lastScrollTop s
      in \<lparr> lastScrollTop = scrollTop,
           scrollback =
             (if scrollDiff < 0 then Math_min mx (scrollback s - scrollDiff)
              else if scrollback s > 0 then max 0 (scrollback s - scrollDiff)
              else scrollback s) \<rparr>)"

text \<open>The values the hook returns after each of a sequence of scroll events.\<close>

fun scrollback_values :: "bound \<Rightarrow> scroll_state \<Rightarrow> int list \<Rightarrow> int list" where
  "scrollback_values mx s [] = []"
| "scrollback_values mx s (scrollTop # rest) =
     (let s' = reducer mx s scrollTop
      in scrollback s' # scrollback_values mx s' rest)"

text \<open>
  The hook itself: the ref starts at the element's \<^verbatim>\<open>scrollTop\<close> when the hook is
  first called, the accumulator at 0.
\<close>

definition useScrollback :: "bound \<Rightarrow> int \<Rightarrow> int list \<Rightarrow> int list" where
  "useScrollback mx elementScrollTop samples =
     scrollback_values mx \<lparr> lastScrollTop = elementScrollTop, scrollback = 0 \<rparr> samples"

text \<open>
  The rule of the specification, in its words: compute delta from the previous offset;
  if delta is negative, increase the accumulator by \<open>- delta\<close>, clamped at \<^verbatim>\<open>max\<close>;
  otherwise decrease the accumulator by delta, clamped at 0.
\<close>

definition spec_rule :: "bound \<Rightarrow> int \<Rightarrow> int \<Rightarrow> int \<Rightarrow> int" where
  "spec_rule mx acc prevOffset newOffset =
     (let delta = newOffset - prevOffset
      in if delta < 0 then Math_min mx (acc + (- delta)) else max 0 (acc - delta))"

subsection \<open>The reducer on doubles\<close>

text \<open>
  A finite double that is zero or of magnitude at least \<open>2 ^ - 7\<close> is a whole multiple
  of \<open>2 ^ - 60\<close>, and it is held here as that multiple: the integer \<open>n\<close> stands for
  \<open>n / 2 ^ 60\<close> pixels. The exact sum or difference of two such values is a multiple
  of \<open>2 ^ - 60\<close> again, and the double that \<^verbatim>\<open>+\<close> and \<^verbatim>\<open>-\<close> return is that
  exact result rounded to 53 significant bits, to the nearest such value and to the even
  one of two equally near (no overflow occurs below \<open>2 ^ 1023\<close>).
\<close>

definition round53 :: "int \<Rightarrow> int" where
  "round53 n =
     (let a = \<bar>n\<bar>; e = nat (bitlen a - 53)
      in if e = 0 then n
         else let q = a div 2 ^ e; r = a mod 2 ^ e; half = 2 ^ (e - 1)
              in sgn n * ((if half < r \<or> (r = half \<and> odd q) then q + 1 else q) * 2 ^ e))"

text \<open>
  The reducer (lines 56 to 68) with both subtractions rounded; comparisons,
  \<^verbatim>\<open>Math.min\<close> and \<^verbatim>\<open>Math.max\<close> are exact on doubles. The fields of the state and
  the bound are in units of \<open>2 ^ - 60\<close> pixel here.
\<close>

definition double_reducer :: "bound \<Rightarrow> scroll_state \<Rightarrow> int \<Rightarrow> scroll_state" where
  "double_reducer mx s scrollTop =
     (let scrollDiff = round53 (scrollTop - lastScrollTop s)
      in \<lparr> lastScrollTop = scrollTop,
           scrollback =
             (if scrollDiff < 0 then Math_min mx (round53 (scrollback s - scrollDiff))
              else if scrollback s > 0 then max 0 (round53 (scrollback s - scrollDiff))
              else scrollback s) \<rparr>)"

text \<open>A state and a bound in whole pixels, in units of \<open>2 ^ - 60\<close> pixel.\<close>

definition pixels :: "scroll_state \<Rightarrow> scroll_state" where
  "pixels s = \<lparr> lastScrollTop = lastScrollTop s * 2 ^ 60, scrollback = scrollback s * 2 ^ 60 \<rparr>"

fun pixels_bound :: "bound \<Rightarrow> bound" where
  "pixels_bound (Finite m) = Finite (m * 2 ^ 60)"
| "pixels_bound Infinity = Infinity"

section \<open>The Form adapter of the legacy widget block\<close>

text \<open>
  \<^verbatim>\<open>Form\<close> mounts a \<^verbatim>\<open>Control\<close> into a container from an effect whose dependencies
  are \<^verbatim>\<open>[ id, idBase, instance, onChangeInstance, onChangeHasPreview, isWide ]\<close>.
  The record below holds exactly these props. Instances are objects that the two sets
  compare by identity, so the type \<open>'i\<close> of instances stands for object identities;
  the two callbacks are compared by identity too and are numbered.
\<close>

record 'i props =
  id_prop :: string
  idBase_prop :: string
  instance_prop :: 'i
  onChangeInstance_prop :: nat
  onChangeHasPreview_prop :: nat
  isWide_prop :: bool

text \<open>
  What the component and its surroundings hold between two events: the two refs of
  lines 41 and 42, the cleanup function that the last run of the effect returned (the
  closure of lines 75 to 82, given by the \<^verbatim>\<open>instance\<close> and the \<^verbatim>\<open>control\<close> it
  captured; \<open>None\<close> when the effect returned nothing), the dependencies of that run,
  the controls constructed so far (a control is its index in this list, the entry is the
  \<^verbatim>\<open>instance\<close> that its callbacks captured), the controls on which
  \<^verbatim>\<open>destroy\<close> was called, the children of the container \<^verbatim>\<open>ref.current\<close>, and
  the arguments of the calls of the parent's \<^verbatim>\<open>onChangeInstance\<close>.
\<close>

record 'i form_state =
  outgoingInstances :: "'i set"
  incomingInstances :: "'i set"
  cleanup :: "('i \<times> nat) option"
  lastDeps :: "'i props option"
  controls :: "'i list"
  destroyed :: "nat set"
  container :: "nat list"
  relayed :: "'i list"

text \<open>The component before its first effect: both sets are new and empty.\<close>

definition Form_init :: "'i form_state" where
  "Form_init =
     \<lparr> outgoingInstances = {}, incomingInstances = {}, cleanup = None, lastDeps = None,
       controls = [], destroyed = {}, container = [], relayed = [] \<rparr>"

text \<open>
  Modelled from the spec: the class \<^verbatim>\<open>Control\<close> (\<^verbatim>\<open>./control\<close>) is not among the
  sources. The specification calls it an externally-owned stateful widget object that
  is constructed bound to the current instance, has a root node and can be destroyed.
  Constructing one records the instance it is bound to under the next free index;
  destroying one records its index.
\<close>

definition Control_new :: "'i \<Rightarrow> 'i form_state \<Rightarrow> nat \<times> 'i form_state" where
  "Control_new inst st = (length (controls st), st\<lparr> controls := controls st @ [inst] \<rparr>)"

definition Control_destroy :: "nat \<Rightarrow> 'i form_state \<Rightarrow> 'i form_state" where
  "Control_destroy control st = st\<lparr> destroyed := insert control (destroyed st) \<rparr>"

text \<open>\<^verbatim>\<open>ref.current.appendChild( control.element )\<close>.\<close>

definition appendChild :: "nat \<Rightarrow> 'i form_state \<Rightarrow> 'i form_state" where
  "appendChild control st = st\<lparr> container := container st @ [control] \<rparr>"

text \<open>
  The callback \<^verbatim>\<open>onChangeInstance( nextInstance )\<close> that a control is constructed with
  (lines 56 to 60); \<open>inst\<close> is the \<^verbatim>\<open>instance\<close> of the effect run that constructed
  the control.
\<close>

definition control_onChangeInstance :: "'i \<Rightarrow> 'i \<Rightarrow> 'i form_state \<Rightarrow> 'i form_state" where
  "control_onChangeInstance inst nextInstance st =
     st\<lparr> outgoingInstances := insert inst (outgoingInstances st),
         incomingInstances := insert nextInstance (incomingInstances st),
         relayed := relayed st @ [nextInstance] \<rparr>"

text \<open>
  The function returned by the effect (lines 75 to 82), with the \<^verbatim>\<open>instance\<close> and
  the \<^verbatim>\<open>control\<close> of its closure.
\<close>

definition effect_cleanup :: "'i \<Rightarrow> nat \<Rightarrow> 'i form_state \<Rightarrow> 'i form_state" where
  "effect_cleanup inst control st =
     (if inst \<in> outgoingInstances st
      then st\<lparr> outgoingInstances := outgoingInstances st - {inst} \<rparr>
      else Control_destroy control st)"

text \<open>
  The effect (lines 46 to 83): an instance found in \<^verbatim>\<open>incomingInstances\<close> is deleted
  from it and nothing is returned; otherwise a control is constructed, its element is
  appended and the cleanup is returned.
\<close>

definition effect :: "'i \<Rightarrow> 'i form_state \<Rightarrow> 'i form_state" where
  "effect inst st =
     (if inst \<in> incomingInstances st
      then st\<lparr> incomingInstances := incomingInstances st - {inst}, cleanup := None \<rparr>
      else (case Control_new inst st of
              (control, st1) \<Rightarrow> (appendChild control st1)\<lparr> cleanup := Some (inst, control) \<rparr>))"

text \<open>
  The element that carries \<^verbatim>\<open>ref\<close> is rendered inside \<^verbatim>\<open>WideFormDialog\<close> when
  \<^verbatim>\<open>isWide\<close> holds and inside a plain \<^verbatim>\<open>div\<close> otherwise (lines 99 to 121). A
  render that changes \<^verbatim>\<open>isWide\<close> therefore replaces it by a new element, which has
  no children; every other render keeps it.
\<close>

definition attach_ref :: "'i props \<Rightarrow> 'i form_state \<Rightarrow> 'i form_state" where
  "attach_ref p st =
     (case lastDeps st of
        None \<Rightarrow> st
      | Some d \<Rightarrow> if isWide_prop d = isWide_prop p then st else st\<lparr> container := [] \<rparr>)"

text \<open>
  Modelled from the spec: \<^verbatim>\<open>useEffect\<close> belongs to the host framework, which is not
  among the sources. The specification gives its order: the cleanup of an effect always
  runs before the next effect of the same binding. A render whose dependencies equal
  those of the last run leaves the effect alone; otherwise the ref is attached, the
  cleanup that the last run returned, if any, runs, and the effect runs with the new
  props.
\<close>

definition useEffect_commit :: "'i props \<Rightarrow> 'i form_state \<Rightarrow> 'i form_state" where
  "useEffect_commit p st =
     (if lastDeps st = Some p then st
      else effect (instance_prop p)
             ((case cleanup st of
                 None \<Rightarrow> attach_ref p st
               | Some (inst, control) \<Rightarrow> effect_cleanup inst control (attach_ref p st))
              \<lparr> lastDeps := Some p \<rparr>))"

text \<open>
  What can happen to a mounted \<^verbatim>\<open>Form\<close>: it is rendered with props, or one of the
  controls constructed so far calls its \<^verbatim>\<open>onChangeInstance\<close>.
\<close>

datatype 'i event = Render "'i props" | ControlChange nat 'i

fun Form_step :: "'i form_state \<Rightarrow> 'i event \<Rightarrow> 'i form_state" where
  "Form_step st (Render p) = useEffect_commit p st"
| "Form_step st (ControlChange control nextInstance) =
     (if control < length (controls st)
      then control_onChangeInstance (controls st ! control) nextInstance st
      else st)"

definition Form_run :: "'i event list \<Rightarrow> 'i form_state" where
  "Form_run evs = foldl Form_step Form_init evs"

text \<open>
  The control of a registered cleanup is one of the controls constructed so far, and the
  instance in the closure of the cleanup is the one that control was constructed with.
\<close>

definition cleanup_of_control :: "'i form_state \<Rightarrow> bool" where
  "cleanup_of_control st =
     (case cleanup st of
        None \<Rightarrow> True
      | Some (inst, control) \<Rightarrow> control < length (controls st) \<and> controls st ! control = inst)"

text \<open>Props of one text widget that differ in the instance only.\<close>

definition text_widget :: "'i \<Rightarrow> 'i props" where
  "text_widget inst =
     \<lparr> id_prop = ''text-2'', idBase_prop = ''text'', instance_prop = inst,
       onChangeInstance_prop = 0, onChangeHasPreview_prop = 0, isWide_prop = False \<rparr>"

section \<open>The error handler of the Form adapter\<close>

text \<open>
  The values an error and its \<^verbatim>\<open>message\<close> can be. An object is given by its
  properties as a property read sees them (own and inherited).
\<close>

datatype js_value =
    JS_undefined
  | JS_null
  | JS_boolean bool
  | JS_number int
  | JS_string string
  | JS_object "(string \<times> js_value) list"

text \<open>\<^verbatim>\<open>error.message\<close> of an error that is neither \<^verbatim>\<open>null\<close> nor \<^verbatim>\<open>undefined\<close>.\<close>

fun get_message :: "js_value \<Rightarrow> js_value" where
  "get_message (JS_object properties) =
     (case map_of properties ''message'' of None \<Rightarrow> JS_undefined | Some v \<Rightarrow> v)"
| "get_message _ = JS_undefined"

definition nullish :: "js_value \<Rightarrow> bool" where
  "nullish v = (v = JS_undefined \<or> v = JS_null)"

text \<open>\<^verbatim>\<open>error?.message\<close> and \<^verbatim>\<open>a ?? b\<close>.\<close>

definition optional_message :: "js_value \<Rightarrow> js_value" where
  "optional_message error = (if nullish error then JS_undefined else get_message error)"

definition nullish_coalescing :: "js_value \<Rightarrow> js_value \<Rightarrow> js_value" where
  "nullish_coalescing a b = (if nullish a then b else a)"

text \<open>
  \<^verbatim>\<open>createNotice( status, content )\<close> of the notices store adds a notice; the notices
  shown to the user are the state.
\<close>

record notice =
  status :: string
  content :: js_value

definition createNotice :: "string \<Rightarrow> js_value \<Rightarrow> notice list \<Rightarrow> notice list" where
  "createNotice st c notices = notices @ [\<lparr> status = st, content = c \<rparr>]"

text \<open>
  The callback \<^verbatim>\<open>onError( error )\<close> that a control is constructed with (lines 62 to
  70). The translation function \<^verbatim>\<open>__\<close> of the i18n package is the parameter
  \<open>translate\<close>; with no translation loaded it returns its argument.
\<close>

definition onError :: "(string \<Rightarrow> string) \<Rightarrow> js_value \<Rightarrow> notice list \<Rightarrow> notice list" where
  "onError translate error notices =
     createNotice ''error''
       (nullish_coalescing (optional_message error)
          (JS_string (translate ''An error occured while fetching or updating the widget.'')))
       notices"

section \<open>Properties of the scrollback reducer\<close>

lemma reducer_lastScrollTop: "lastScrollTop (reducer mx s t) = t"
  by (simp add: reducer_def Let_def)

lemma reducer_scrollback:
  "scrollback (reducer mx s t) =
     (if t < lastScrollTop s then Math_min mx (scrollback s - (t - lastScrollTop s))
      else if 0 < scrollback s then max 0 (scrollback s - (t - lastScrollTop s))
      else scrollback s)"
  by (simp add: reducer_def Let_def)

lemma Math_min_le_bound: "le_bound (Math_min mx x) mx"
  by (cases mx) simp_all

lemma Math_min_nonneg: "bound_nonneg mx \<Longrightarrow> 0 \<le> x \<Longrightarrow> 0 \<le> Math_min mx x"
  by (cases mx) simp_all

lemma le_bound_trans: "x \<le> y \<Longrightarrow> le_bound y mx \<Longrightarrow> le_bound x mx"
  by (cases mx) simp_all

lemma reducer_in_range:
  assumes "bound_nonneg mx" and "0 \<le> scrollback s" and "le_bound (scrollback s) mx"
  shows "0 \<le> scrollback (reducer mx s t) \<and> le_bound (scrollback (reducer mx s t)) mx"
proof (cases "t - lastScrollTop s < 0")
  case True
  then have "scrollback (reducer mx s t) = Math_min mx (scrollback s - (t - lastScrollTop s))"
    by (simp add: reducer_def Let_def)
  moreover have "0 \<le> scrollback s - (t - lastScrollTop s)"
    using True assms(2) by simp
  ultimately show ?thesis
    using assms(1) by (simp add: Math_min_le_bound Math_min_nonneg)
next
  case False
  show ?thesis
  proof (cases "scrollback s > 0")
    case True
    with False have eq: "scrollback (reducer mx s t) = max 0 (scrollback s - (t - lastScrollTop s))"
      by (simp add: reducer_def Let_def)
    have "max 0 (scrollback s - (t - lastScrollTop s)) \<le> scrollback s"
      using False True by simp
    then have "le_bound (max 0 (scrollback s - (t - lastScrollTop s))) mx"
      using assms(3) by (rule le_bound_trans)
    then show ?thesis
      using eq by simp
  next
    case nonpos: False
    with False have "scrollback (reducer mx s t) = scrollback s"
      by (simp add: reducer_def Let_def)
    then show ?thesis
      using assms by simp
  qed
qed

lemma scrollback_values_in_range:
  "bound_nonneg mx \<Longrightarrow> 0 \<le> scrollback s \<Longrightarrow> le_bound (scrollback s) mx \<Longrightarrow>
   v \<in> set (scrollback_values mx s samples) \<Longrightarrow> 0 \<le> v \<and> le_bound v mx"
proof (induction samples arbitrary: s)
  case Nil
  then show ?case by simp
next
  case (Cons t rest)
  have step: "0 \<le> scrollback (reducer mx s t) \<and> le_bound (scrollback (reducer mx s t)) mx"
    using Cons.prems(1-3) by (rule reducer_in_range)
  from Cons.prems(4) consider "v = scrollback (reducer mx s t)"
    | "v \<in> set (scrollback_values mx (reducer mx s t) rest)"
    by (auto simp: Let_def)
  then show ?case
  proof cases
    case 1
    with step show ?thesis by simp
  next
    case 2
    with Cons.IH [of "reducer mx s t"] Cons.prems(1) step show ?thesis by simp
  qed
qed

text \<open>
  C1. For every sequence of scroll samples given to the hook, which starts from the
  accumulator 0, and every bound \<^verbatim>\<open>max >= 0\<close> (a number or \<^verbatim>\<open>Infinity\<close>), the
  value after each sample is at least 0 and at most \<^verbatim>\<open>max\<close>.
\<close>

theorem useScrollback_in_range:
  "bound_nonneg mx \<Longrightarrow> v \<in> set (useScrollback mx elementScrollTop samples) \<Longrightarrow>
   0 \<le> v \<and> le_bound v mx"
  unfolding useScrollback_def
  by (rule scrollback_values_in_range [where s = "\<lparr> lastScrollTop = elementScrollTop, scrollback = 0 \<rparr>"])
     (cases mx; simp)+

theorem useScrollback_in_range_witness:
  "bound_nonneg (Finite 40) \<and> useScrollback (Finite 40) 100 [70, 20, 50, 300] = [30, 40, 10, 0]
   \<and> 0 \<le> (40::int) \<and> le_bound 40 (Finite 40)"
proof -
  have run: "useScrollback (Finite 40) 100 [70, 20, 50, 300] = [30, 40, 10, 0]"
    by (simp add: useScrollback_def reducer_def Let_def)
  have mem: "40 \<in> set (useScrollback (Finite 40) 100 [70, 20, 50, 300])"
    by (simp add: run)
  have "bound_nonneg (Finite 40)" by simp
  from useScrollback_in_range [OF this mem] run show ?thesis by simp
qed

lemma reducer_nonneg:
  "bound_nonneg mx \<Longrightarrow> 0 \<le> scrollback s \<Longrightarrow> 0 \<le> scrollback (reducer mx s t)"
  by (cases mx) (simp_all add: reducer_scrollback)

text \<open>
  Every state of the hook has an accumulator that is not negative: the hook starts at
  0, and with \<^verbatim>\<open>max >= 0\<close> no step of the reducer leads below 0.
\<close>

lemma hook_states_nonneg:
  "bound_nonneg mx \<Longrightarrow> 0 \<le> scrollback s \<Longrightarrow> 0 \<le> scrollback (foldl (reducer mx) s samples)"
  by (induction samples arbitrary: s) (simp_all add: reducer_nonneg)

text \<open>
  C2. For every previous accumulator of the hook (a value of at least 0, as all its
  values are by \<open>hook_states_nonneg\<close>), every previous offset and every new offset, one
  step of the reducer gives what the rule of the specification gives.
\<close>

theorem reducer_spec_rule:
  "0 \<le> scrollback s \<Longrightarrow>
   scrollback (reducer mx s scrollTop) = spec_rule mx (scrollback s) (lastScrollTop s) scrollTop"
proof -
  assume nonneg: "0 \<le> scrollback s"
  have minus: "scrollback s + - (scrollTop - lastScrollTop s)
                 = scrollback s - (scrollTop - lastScrollTop s)"
    by simp
  show ?thesis
  proof (cases "0 < scrollback s")
    case True
    then show ?thesis
      unfolding reducer_scrollback spec_rule_def Let_def minus by simp
  next
    case False
    with nonneg have zero: "scrollback s = 0" by simp
    show ?thesis
      unfolding reducer_scrollback spec_rule_def Let_def minus zero by simp
  qed
qed

theorem reducer_spec_rule_witness:
  "(0::int) \<le> 30 \<and> scrollback (reducer (Finite 40) \<lparr> lastScrollTop = 70, scrollback = 30 \<rparr> 90) = 10
   \<and> spec_rule (Finite 40) 30 70 90 = 10"
proof -
  have "(0::int) \<le> scrollback \<lparr> lastScrollTop = 70, scrollback = 30 \<rparr>" by simp
  from reducer_spec_rule [OF this, of "Finite 40" 90] show ?thesis
    by (simp add: spec_rule_def Let_def)
qed

text \<open>
  C6. When the accumulator equals \<^verbatim>\<open>max\<close>, a further upward sample (a new offset
  below the last one) leaves it at \<^verbatim>\<open>max\<close>.
\<close>

theorem reducer_at_max:
  "scrollback s = m \<Longrightarrow> scrollTop < lastScrollTop s \<Longrightarrow>
   scrollback (reducer (Finite m) s scrollTop) = m"
  by (simp add: reducer_scrollback)

theorem reducer_at_max_witness:
  "scrollback \<lparr> lastScrollTop = 50, scrollback = 40 \<rparr> = 40 \<and> (20::int) < 50
   \<and> scrollback (reducer (Finite 40) \<lparr> lastScrollTop = 50, scrollback = 40 \<rparr> 20) = 40"
proof -
  have h1: "scrollback \<lparr> lastScrollTop = 50, scrollback = 40 \<rparr> = 40" by simp
  have h2: "(20::int) < lastScrollTop \<lparr> lastScrollTop = 50, scrollback = 40 \<rparr>" by simp
  from reducer_at_max [OF h1 h2] show ?thesis by simp
qed

subsection \<open>The round trip on doubles\<close>

lemma round53_minus: "round53 (- n) = - round53 n"
  by (simp add: round53_def Let_def)

lemma double_reducer_scrollback:
  "scrollback (double_reducer mx s t) =
     (if round53 (t - lastScrollTop s) < 0
      then Math_min mx (round53 (scrollback s - round53 (t - lastScrollTop s)))
      else if 0 < scrollback s then max 0 (round53 (scrollback s - round53 (t - lastScrollTop s)))
      else scrollback s)"
  by (simp add: double_reducer_def Let_def)

lemma double_reducer_lastScrollTop: "lastScrollTop (double_reducer mx s t) = t"
  by (simp add: double_reducer_def Let_def)

text \<open>A value of at most 53 significant bits, scaled by a power of two, is not rounded.\<close>

lemma round53_whole:
  assumes "\<bar>m\<bar> < 2 ^ 53"
  shows "round53 (m * 2 ^ k) = m * 2 ^ k"
proof (cases "m = 0")
  case True
  then show ?thesis by (simp add: round53_def)
next
  case False
  then have pos: "0 < \<bar>m\<bar>" by simp
  have abs_eq: "\<bar>m * 2 ^ k\<bar> = \<bar>m\<bar> * 2 ^ k" by (simp add: abs_mult)
  have len: "bitlen (\<bar>m\<bar> * 2 ^ k) = bitlen \<bar>m\<bar> + int k"
    using pos by (rule bitlen_pow2)
  have le: "bitlen \<bar>m\<bar> \<le> 53"
    using assms by (simp add: bitlen_le_iff_power)
  define e where "e = nat (bitlen \<bar>m\<bar> + int k - 53)"
  have e_le: "e \<le> k" using le by (simp add: e_def)
  have dvd: "(2::int) ^ e dvd \<bar>m\<bar> * 2 ^ k"
    using e_le by (simp add: le_imp_power_dvd)
  have r: "(\<bar>m\<bar> * 2 ^ k) mod 2 ^ e = 0"
    using dvd by simp
  have q: "(\<bar>m\<bar> * 2 ^ k) div 2 ^ e * 2 ^ e = \<bar>m\<bar> * 2 ^ k"
    using dvd by simp
  have sign: "sgn (m * 2 ^ k) * (\<bar>m\<bar> * 2 ^ k) = m * 2 ^ k"
    unfolding abs_eq [symmetric] by (simp add: mult_sgn_abs)
  show ?thesis
  proof (cases "e = 0")
    case True
    then show ?thesis
      unfolding round53_def Let_def abs_eq len e_def [symmetric] by simp
  next
    case False
    then have "round53 (m * 2 ^ k) = sgn (m * 2 ^ k) * ((\<bar>m\<bar> * 2 ^ k) div 2 ^ e * 2 ^ e)"
      unfolding round53_def Let_def abs_eq len e_def [symmetric] r by simp
    then show ?thesis
      unfolding q sign .
  qed
qed

text \<open>
  On whole pixels the reducer on doubles does what the reducer on integers does, as
  long as the difference of the offsets and the new accumulator stay below \<open>2 ^ 53\<close>.
\<close>

lemma double_reducer_pixels:
  assumes "\<bar>t - lastScrollTop s\<bar> < 2 ^ 53"
    and "\<bar>scrollback s - (t - lastScrollTop s)\<bar> < 2 ^ 53"
  shows "double_reducer (pixels_bound mx) (pixels s) (t * 2 ^ 60) = pixels (reducer mx s t)"
proof -
  have diff: "round53 (t * 2 ^ 60 - lastScrollTop s * 2 ^ 60) = (t - lastScrollTop s) * 2 ^ 60"
    using round53_whole [OF assms(1), of 60] by (simp only: left_diff_distrib)
  have acc: "round53 (scrollback s * 2 ^ 60 - (t - lastScrollTop s) * 2 ^ 60)
               = (scrollback s - (t - lastScrollTop s)) * 2 ^ 60"
    using round53_whole [OF assms(2), of 60] by (simp only: left_diff_distrib)
  have neg: "(t - lastScrollTop s) * 2 ^ 60 < 0 \<longleftrightarrow> t - lastScrollTop s < 0"
    by (simp add: mult_less_0_iff)
  have pos: "0 < scrollback s * 2 ^ 60 \<longleftrightarrow> 0 < scrollback s"
    by (simp add: zero_less_mult_iff)
  have mx0: "max 0 ((scrollback s - (t - lastScrollTop s)) * 2 ^ 60)
               = max 0 (scrollback s - (t - lastScrollTop s)) * 2 ^ 60"
    by (simp add: max_def mult_le_0_iff zero_le_mult_iff)
  have mn: "Math_min (pixels_bound mx) ((scrollback s - (t - lastScrollTop s)) * 2 ^ 60)
               = Math_min mx (scrollback s - (t - lastScrollTop s)) * 2 ^ 60"
    by (cases mx) (simp_all add: min_def)
  show ?thesis
    unfolding double_reducer_def reducer_def pixels_def Let_def
    by (simp only: scroll_state.simps diff acc neg pos mx0 mn if_distrib [of "\<lambda>x. x * 2 ^ 60"]
        cong: if_cong)
qed

lemma double_round_trip:
  assumes "0 \<le> s" and "round53 s = s" and "0 < round53 (t - t')"
    and "round53 (s + round53 (t - t')) = s + round53 (t - t')"
    and "le_bound (s + round53 (t - t')) mx"
  shows "scrollback (double_reducer mx
           (double_reducer mx \<lparr> lastScrollTop = t, scrollback = s \<rparr> t') t) = s"
proof -
  let ?d = "round53 (t - t')"
  let ?s1 = "double_reducer mx \<lparr> lastScrollTop = t, scrollback = s \<rparr> t'"
  have up: "round53 (t' - t) = - ?d"
    using round53_minus [of "t - t'"] by simp
  have first: "scrollback ?s1 = s + ?d"
    using assms(3,4,5) by (cases mx) (simp_all add: double_reducer_scrollback up)
  have last: "lastScrollTop ?s1 = t'"
    by (rule double_reducer_lastScrollTop)
  have "scrollback (double_reducer mx ?s1 t) =
          (if ?d < 0 then Math_min mx (round53 (s + ?d - ?d))
           else if 0 < s + ?d then max 0 (round53 (s + ?d - ?d))
           else s + ?d)"
    using double_reducer_scrollback [of mx ?s1 t] by (simp only: last first)
  then show ?thesis
    using assms(1,2,3) by simp
qed

text \<open>The round trip on whole pixels, where nothing is rounded.\<close>

lemma double_round_trip_pixels:
  assumes "0 \<le> s" and "0 < d" and "s + d < 2 ^ 53" and "le_bound ((s + d) * 2 ^ 60) mx"
  shows "scrollback (double_reducer mx
           (double_reducer mx \<lparr> lastScrollTop = t * 2 ^ 60, scrollback = s * 2 ^ 60 \<rparr>
              ((t - d) * 2 ^ 60)) (t * 2 ^ 60)) = s * 2 ^ 60"
proof -
  have d: "round53 (t * 2 ^ 60 - (t - d) * 2 ^ 60) = d * 2 ^ 60"
  proof -
    have "\<bar>d\<bar> < 2 ^ 53" using assms(1,2,3) by simp
    from round53_whole [OF this, of 60] show ?thesis
      by (simp only: left_diff_distrib [symmetric] diff_diff_eq2 add_diff_cancel_left')
  qed
  have s: "round53 (s * 2 ^ 60) = s * 2 ^ 60"
    using assms(1,2,3) by (intro round53_whole) simp
  have sd: "round53 (s * 2 ^ 60 + d * 2 ^ 60) = s * 2 ^ 60 + d * 2 ^ 60"
  proof -
    have "\<bar>s + d\<bar> < 2 ^ 53" using assms(1,2,3) by simp
    from round53_whole [OF this, of 60] show ?thesis
      by (simp only: distrib_right)
  qed
  show ?thesis
  proof (rule double_round_trip)
    show "0 \<le> s * 2 ^ 60" using assms(1) by simp
    show "round53 (s * 2 ^ 60) = s * 2 ^ 60" by (rule s)
    show "0 < round53 (t * 2 ^ 60 - (t - d) * 2 ^ 60)"
      unfolding d using assms(2) by simp
    show "round53 (s * 2 ^ 60 + round53 (t * 2 ^ 60 - (t - d) * 2 ^ 60))
            = s * 2 ^ 60 + round53 (t * 2 ^ 60 - (t - d) * 2 ^ 60)"
      unfolding d by (rule sd)
    show "le_bound (s * 2 ^ 60 + round53 (t * 2 ^ 60 - (t - d) * 2 ^ 60)) mx"
      unfolding d using assms(4) by (simp only: distrib_right)
  qed
qed

text \<open>
  C5, as amended. From an accumulator \<open>s\<close> that is not negative, an upward sample (the
  offset goes from \<open>t\<close> to \<open>t'\<close>, and the reducer computes the difference \<open>d > 0\<close>)
  followed by the downward sample back to \<open>t\<close> gives \<open>s\<close> again, when \<open>s + d\<close> does not
  exceed \<^verbatim>\<open>max\<close> and the sum \<open>s + d\<close> is a double, so that the addition is not
  rounded. Values are in units of \<open>2 ^ - 60\<close> pixel.
\<close>

theorem double_reducer_up_then_down:
  assumes "0 \<le> s" and "round53 s = s" and "0 < round53 (t - t')"
    and "round53 (s + round53 (t - t')) = s + round53 (t - t')"
    and "le_bound (s + round53 (t - t')) mx"
  shows "scrollback (double_reducer mx
           (double_reducer mx \<lparr> lastScrollTop = t, scrollback = s \<rparr> t') t) = s"
  using assms by (rule double_round_trip)

text \<open>The witness is at 5, 100 and 80 pixels with the bound 40.\<close>

theorem double_reducer_up_then_down_witness:
  "(0::int) \<le> 5 * 2 ^ 60
   \<and> round53 (5 * 2 ^ 60) = 5 * 2 ^ 60
   \<and> 0 < round53 (100 * 2 ^ 60 - 80 * 2 ^ 60)
   \<and> round53 (5 * 2 ^ 60 + round53 (100 * 2 ^ 60 - 80 * 2 ^ 60))
       = 5 * 2 ^ 60 + round53 (100 * 2 ^ 60 - 80 * 2 ^ 60)
   \<and> le_bound (5 * 2 ^ 60 + round53 (100 * 2 ^ 60 - 80 * 2 ^ 60)) (Finite (40 * 2 ^ 60))
   \<and> scrollback (double_reducer (Finite (40 * 2 ^ 60))
        (double_reducer (Finite (40 * 2 ^ 60))
           \<lparr> lastScrollTop = 100 * 2 ^ 60, scrollback = 5 * 2 ^ 60 \<rparr> (80 * 2 ^ 60))
        (100 * 2 ^ 60)) = 5 * 2 ^ 60"
proof -
  have h1: "(0::int) \<le> 5 * 2 ^ 60" by simp
  have h2: "round53 (5 * 2 ^ 60) = 5 * 2 ^ 60" by code_simp
  have d: "round53 (100 * 2 ^ 60 - 80 * 2 ^ 60) = 20 * 2 ^ 60" by code_simp
  have h3: "0 < round53 (100 * 2 ^ 60 - 80 * 2 ^ 60)" unfolding d by simp
  have h4: "round53 (5 * 2 ^ 60 + round53 (100 * 2 ^ 60 - 80 * 2 ^ 60))
              = 5 * 2 ^ 60 + round53 (100 * 2 ^ 60 - 80 * 2 ^ 60)"
    unfolding d by code_simp
  have h5: "le_bound (5 * 2 ^ 60 + round53 (100 * 2 ^ 60 - 80 * 2 ^ 60)) (Finite (40 * 2 ^ 60))"
    unfolding d by simp
  from double_reducer_up_then_down [OF h1 h2 h3 h4 h5] h1 h2 h3 h4 h5 show ?thesis
    by (intro conjI)
qed

text \<open>
  C5 as the specification states it fails on offsets with a fraction. In units of
  \<open>2 ^ - 60\<close> pixel, the doubles nearest to 1.6 and 0.8 are 1844674407370955264 and
  922337203685477632, and the bound of 40 pixels is 46116860184273879040. From the
  accumulator 1.6 with the last offset 1.6, the sample 0.8 computes the difference
  \<open>d\<close> = 0.8 and the sum 2767011611056433152, which is the double 2.4000000000000004,
  below the bound; the sample 1.6 then gives 1844674407370955520, the double
  1.6000000000000003, and not the accumulator before.
\<close>

theorem double_reducer_up_then_down_counterexample:
  "(0::int) \<le> 1844674407370955264
   \<and> le_bound 1844674407370955264 (Finite 46116860184273879040)
   \<and> round53 (1844674407370955264 - 922337203685477632) = 922337203685477632
   \<and> scrollback (double_reducer (Finite 46116860184273879040)
        \<lparr> lastScrollTop = 1844674407370955264, scrollback = 1844674407370955264 \<rparr>
        922337203685477632) = 2767011611056433152
   \<and> le_bound (1844674407370955264 + 922337203685477632) (Finite 46116860184273879040)
   \<and> scrollback (double_reducer (Finite 46116860184273879040)
        (double_reducer (Finite 46116860184273879040)
           \<lparr> lastScrollTop = 1844674407370955264, scrollback = 1844674407370955264 \<rparr>
           922337203685477632)
        1844674407370955264) = 1844674407370955520
   \<and> (1844674407370955520::int) \<noteq> 1844674407370955264"
  by code_simp

section \<open>Properties of the Form adapter\<close>

lemmas Form_defs = useEffect_commit_def effect_def effect_cleanup_def Control_new_def
  Control_destroy_def appendChild_def control_onChangeInstance_def

lemma attach_ref_fields:
  "outgoingInstances (attach_ref p st) = outgoingInstances st"
  "incomingInstances (attach_ref p st) = incomingInstances st"
  "cleanup (attach_ref p st) = cleanup st"
  "lastDeps (attach_ref p st) = lastDeps st"
  "controls (attach_ref p st) = controls st"
  "destroyed (attach_ref p st) = destroyed st"
  "relayed (attach_ref p st) = relayed st"
  by (simp_all add: attach_ref_def split: option.splits)

lemma attach_ref_same: "lastDeps st = Some p \<Longrightarrow> attach_ref p st = st"
  by (simp add: attach_ref_def)

lemma attach_ref_container:
  "container (attach_ref p (control_onChangeInstance inst nextInstance st))
     = container (attach_ref p st)"
  by (simp add: attach_ref_def control_onChangeInstance_def split: option.splits)

lemma Form_run_snoc: "Form_run (evs @ [ev]) = Form_step (Form_run evs) ev"
  by (simp add: Form_run_def)

lemma cleanup_of_control_step:
  "cleanup_of_control st \<Longrightarrow> cleanup_of_control (Form_step st ev)"
  by (cases ev)
     (auto simp: cleanup_of_control_def Form_defs attach_ref_fields nth_append
           split: option.splits prod.splits)

lemma cleanup_of_control_run: "cleanup_of_control (Form_run evs)"
proof (induction evs rule: rev_induct)
  case Nil
  show ?case by (simp add: Form_run_def Form_init_def cleanup_of_control_def)
next
  case (snoc ev evs)
  then show ?case by (simp add: Form_run_snoc cleanup_of_control_step)
qed

lemma incoming_relayed_step:
  "incomingInstances st \<subseteq> set (relayed st) \<Longrightarrow>
   incomingInstances (Form_step st ev) \<subseteq> set (relayed (Form_step st ev))"
  by (cases ev) (auto simp: Form_defs attach_ref_fields split: option.splits prod.splits)

lemma incoming_relayed_run: "incomingInstances (Form_run evs) \<subseteq> set (relayed (Form_run evs))"
proof (induction evs rule: rev_induct)
  case Nil
  show ?case by (simp add: Form_run_def Form_init_def)
next
  case (snoc ev evs)
  then show ?case by (simp add: Form_run_snoc incoming_relayed_step)
qed

lemma own_change_step:
  assumes "cleanup_of_control st" and "cleanup st = Some (A, c)" and "instance_prop p = B"
  shows "controls (Form_step (Form_step st (ControlChange c B)) (Render p)) = controls st
       \<and> destroyed (Form_step (Form_step st (ControlChange c B)) (Render p)) = destroyed st
       \<and> container (Form_step (Form_step st (ControlChange c B)) (Render p))
           = container (attach_ref p st)"
proof -
  from assms(1,2) have c: "c < length (controls st)" and A: "controls st ! c = A"
    by (simp_all add: cleanup_of_control_def)
  let ?st1 = "control_onChangeInstance A B st"
  have step1: "Form_step st (ControlChange c B) = ?st1"
    using c A by simp
  show ?thesis
  proof (cases "lastDeps st = Some p")
    case True
    then have "Form_step ?st1 (Render p) = ?st1"
      by (simp add: useEffect_commit_def control_onChangeInstance_def)
    then show ?thesis
      unfolding step1 using True by (simp add: control_onChangeInstance_def attach_ref_same)
  next
    case False
    then have "lastDeps ?st1 \<noteq> Some p"
      by (simp add: control_onChangeInstance_def)
    then show ?thesis
      unfolding step1 using assms(2,3) attach_ref_container [of p A B st]
      by (simp add: Form_defs attach_ref_fields)
  qed
qed

lemma external_update_step:
  assumes "cleanup st = Some (A, c)" and "A \<notin> outgoingInstances st"
    and "instance_prop p \<notin> incomingInstances st" and "lastDeps st \<noteq> Some p"
  shows "destroyed (Form_step st (Render p)) = insert c (destroyed st)
       \<and> controls (Form_step st (Render p)) = controls st @ [instance_prop p]
       \<and> container (Form_step st (Render p)) = container (attach_ref p st) @ [length (controls st)]
       \<and> cleanup (Form_step st (Render p)) = Some (instance_prop p, length (controls st))"
  using assms by (simp add: Form_defs attach_ref_fields)

lemma render_incoming: "incomingInstances (Form_step st (Render p)) \<subseteq> incomingInstances st"
  by (auto simp: Form_defs attach_ref_fields split: option.splits prod.splits)

lemma renders_incoming:
  "incomingInstances (foldl Form_step st (map Render ps)) \<subseteq> incomingInstances st"
proof (induction ps arbitrary: st)
  case Nil
  show ?case by simp
next
  case (Cons p ps)
  have "incomingInstances (foldl Form_step (Form_step st (Render p)) (map Render ps))
          \<subseteq> incomingInstances (Form_step st (Render p))"
    by (rule Cons.IH)
  also have "\<dots> \<subseteq> incomingInstances st" by (rule render_incoming)
  finally show ?case by simp
qed

lemma reconcile_step:
  assumes "c < length (controls st)" and "lastDeps st \<noteq> Some p" and "instance_prop p = B"
  shows "controls (Form_step (Form_step st (ControlChange c B)) (Render p)) = controls st
       \<and> B \<notin> incomingInstances (Form_step (Form_step st (ControlChange c B)) (Render p))"
  using assms by (auto simp: Form_defs attach_ref_fields split: option.splits prod.splits)

lemma effect_constructs:
  assumes "instance_prop p \<notin> incomingInstances st" and "lastDeps st \<noteq> Some p"
  shows "controls (Form_step st (Render p)) = controls st @ [instance_prop p]
       \<and> cleanup (Form_step st (Render p)) = Some (instance_prop p, length (controls st))"
  using assms by (auto simp: Form_defs attach_ref_fields split: option.splits prod.splits)

lemma instance_prop_text_widget: "instance_prop (text_widget inst) = inst"
  by (simp add: text_widget_def)

lemma text_widget_eq: "text_widget a = text_widget b \<longleftrightarrow> a = b"
  by (simp add: text_widget_def)

text \<open>
  C3. In every state the component reaches in which the effect has mounted a control
  for an instance \<open>A\<close> (its cleanup is registered), when that control calls its
  \<^verbatim>\<open>onChangeInstance\<close> with \<open>B\<close> and the next render delivers \<open>B\<close>, no control is
  constructed and none is destroyed. The container has the children that attaching the
  ref leaves it: all of them, unless the render changes \<^verbatim>\<open>isWide\<close>.
\<close>

theorem Form_own_change_no_remount:
  assumes "cleanup (Form_run evs) = Some (A, c)" and "instance_prop p = B"
  shows "controls (Form_step (Form_step (Form_run evs) (ControlChange c B)) (Render p))
           = controls (Form_run evs)
       \<and> destroyed (Form_step (Form_step (Form_run evs) (ControlChange c B)) (Render p))
           = destroyed (Form_run evs)
       \<and> container (Form_step (Form_step (Form_run evs) (ControlChange c B)) (Render p))
           = container (attach_ref p (Form_run evs))"
  using cleanup_of_control_run assms by (rule own_change_step)

theorem Form_own_change_no_remount_witness:
  "cleanup (Form_run [Render (text_widget (0::nat))]) = Some (0, 0)
   \<and> instance_prop (text_widget (1::nat)) = 1
   \<and> controls (Form_run [Render (text_widget (0::nat)), ControlChange 0 1, Render (text_widget 1)]) = [0]
   \<and> destroyed (Form_run [Render (text_widget (0::nat)), ControlChange 0 1, Render (text_widget 1)]) = {}
   \<and> container (Form_run [Render (text_widget (0::nat)), ControlChange 0 1, Render (text_widget 1)]) = [0]"
proof -
  have mounted: "cleanup (Form_run [Render (text_widget (0::nat))]) = Some (0, 0)"
    by (simp add: Form_run_def Form_init_def Form_defs attach_ref_def text_widget_def)
  have delivered: "instance_prop (text_widget (1::nat)) = 1"
    by (simp add: text_widget_def)
  have before: "controls (Form_run [Render (text_widget (0::nat))]) = [0]
      \<and> destroyed (Form_run [Render (text_widget (0::nat))]) = {}
      \<and> container (attach_ref (text_widget 1) (Form_run [Render (text_widget (0::nat))])) = [0]"
    by (simp add: Form_run_def Form_init_def Form_defs attach_ref_def text_widget_def)
  have run: "Form_run [Render (text_widget (0::nat)), ControlChange 0 1, Render (text_widget 1)]
      = Form_step (Form_step (Form_run [Render (text_widget 0)]) (ControlChange 0 1))
          (Render (text_widget 1))"
    by (simp add: Form_run_def)
  from Form_own_change_no_remount [OF mounted delivered] mounted delivered before
  show ?thesis unfolding run by simp
qed

text \<open>
  External updates that do remount. When the cleanup of the control mounted for \<open>A\<close>
  is registered and \<open>A\<close> is not in \<^verbatim>\<open>outgoingInstances\<close>, a render with changed
  dependencies that delivers an instance never passed to a control's
  \<^verbatim>\<open>onChangeInstance\<close> destroys that control, constructs a control bound to the new
  instance, appends it and registers its cleanup. These conditions hold right after the
  first mount.
\<close>

lemma external_update_remounts:
  assumes "cleanup (Form_run evs) = Some (A, c)"
    and "A \<notin> outgoingInstances (Form_run evs)"
    and "instance_prop p \<notin> set (relayed (Form_run evs))"
    and "lastDeps (Form_run evs) \<noteq> Some p"
  shows "destroyed (Form_step (Form_run evs) (Render p)) = insert c (destroyed (Form_run evs))
       \<and> controls (Form_step (Form_run evs) (Render p)) = controls (Form_run evs) @ [instance_prop p]
       \<and> container (Form_step (Form_run evs) (Render p))
           = container (attach_ref p (Form_run evs)) @ [length (controls (Form_run evs))]
       \<and> cleanup (Form_step (Form_run evs) (Render p))
           = Some (instance_prop p, length (controls (Form_run evs)))"
proof -
  have "instance_prop p \<notin> incomingInstances (Form_run evs)"
    using assms(3) incoming_relayed_run [of evs] by blast
  with assms(1,2) show ?thesis
    using assms(4) by (rule external_update_step)
qed

lemma external_update_after_mount:
  "destroyed (Form_run [Render (text_widget (0::nat)), Render (text_widget 2)]) = {0}
   \<and> controls (Form_run [Render (text_widget (0::nat)), Render (text_widget 2)]) = [0, 2]
   \<and> container (Form_run [Render (text_widget (0::nat)), Render (text_widget 2)]) = [0, 1]
   \<and> cleanup (Form_run [Render (text_widget (0::nat)), Render (text_widget 2)]) = Some (2, 1)"
  by (simp add: Form_run_def Form_init_def Form_defs attach_ref_def text_widget_def)

text \<open>
  C4 fails on the code after a change that a control made itself. The component is
  mounted with instance 0 and constructs control 0; control 0 calls
  \<^verbatim>\<open>onChangeInstance\<close> with instance 1; the props deliver instance 1, and the effect
  returns early, so that no cleanup is registered; an undo then delivers instance 0
  again, which was never passed to the callback. Control 1 is constructed for it and
  appended, but \<^verbatim>\<open>destroy\<close> is called on no control: control 0 stays in the
  container next to control 1.
\<close>

theorem Form_undo_keeps_old_control:
  "cleanup (Form_run [Render (text_widget (0::nat)), ControlChange 0 1, Render (text_widget 1)]) = None
   \<and> controls (Form_run [Render (text_widget (0::nat)), ControlChange 0 1, Render (text_widget 1)]) = [0]
   \<and> relayed (Form_run [Render (text_widget (0::nat)), ControlChange 0 1, Render (text_widget 1)]) = [1]
   \<and> controls (Form_run [Render (text_widget (0::nat)), ControlChange 0 1, Render (text_widget 1),
        Render (text_widget 0)]) = [0, 0]
   \<and> destroyed (Form_run [Render (text_widget (0::nat)), ControlChange 0 1, Render (text_widget 1),
        Render (text_widget 0)]) = {}
   \<and> container (Form_run [Render (text_widget (0::nat)), ControlChange 0 1, Render (text_widget 1),
        Render (text_widget 0)]) = [0, 1]"
  by (simp add: Form_run_def Form_init_def Form_defs attach_ref_def text_widget_def)

text \<open>
  The same defect with a change pending: after the mount of instance 0 and the call of
  control 0 with instance 1, a render that delivers instance 2, which was never passed
  to the callback, finds instance 0 in \<^verbatim>\<open>outgoingInstances\<close>; control 0 is not
  destroyed, and control 1 is constructed for instance 2 and appended after it.
\<close>

lemma Form_pending_change_example:
  "cleanup (Form_run [Render (text_widget (0::nat)), ControlChange 0 1]) = Some (0, 0)
   \<and> 2 \<notin> set (relayed (Form_run [Render (text_widget (0::nat)), ControlChange 0 1]))
   \<and> lastDeps (Form_run [Render (text_widget (0::nat)), ControlChange 0 1]) \<noteq> Some (text_widget 2)
   \<and> 0 \<notin> destroyed (Form_run [Render (text_widget (0::nat)), ControlChange 0 1, Render (text_widget 2)])
   \<and> controls (Form_run [Render (text_widget (0::nat)), ControlChange 0 1, Render (text_widget 2)]) = [0, 2]
   \<and> container (Form_run [Render (text_widget (0::nat)), ControlChange 0 1, Render (text_widget 2)]) = [0, 1]"
  by (simp add: Form_run_def Form_init_def Form_defs attach_ref_def text_widget_def)

text \<open>
  And with no change pending and a cleanup registered. Control 0, mounted for instance
  0, passes 1 and later 2 to its callback, and each is delivered back; both times it
  records instance 0 as outgoing, and the second record stays. After an undo to 1 and an
  undo to 0, control 2 is mounted for instance 0; when instance 3 arrives, control 2 is
  not destroyed. Control 0 is never destroyed either.
\<close>

lemma Form_stale_outgoing_example:
  "cleanup (Form_run [Render (text_widget (0::nat)), ControlChange 0 1, Render (text_widget 1),
      ControlChange 0 2, Render (text_widget 2), Render (text_widget 1), Render (text_widget 0)])
     = Some (0, 2)
   \<and> outgoingInstances (Form_run [Render (text_widget (0::nat)), ControlChange 0 1,
      Render (text_widget 1), ControlChange 0 2, Render (text_widget 2), Render (text_widget 1),
      Render (text_widget 0)]) = {0}
   \<and> destroyed (Form_run [Render (text_widget (0::nat)), ControlChange 0 1, Render (text_widget 1),
      ControlChange 0 2, Render (text_widget 2), Render (text_widget 1), Render (text_widget 0),
      Render (text_widget 3)]) = {1}
   \<and> controls (Form_run [Render (text_widget (0::nat)), ControlChange 0 1, Render (text_widget 1),
      ControlChange 0 2, Render (text_widget 2), Render (text_widget 1), Render (text_widget 0),
      Render (text_widget 3)]) = [0, 1, 0, 3]"
  by (simp add: Form_run_def Form_init_def Form_defs attach_ref_def text_widget_def)

text \<open>
  The suppression is used up by one effect run. A control calls its
  \<^verbatim>\<open>onChangeInstance\<close> with \<open>B\<close>, and the effect runs with \<open>B\<close>: no control is
  constructed and \<open>B\<close> is no longer in \<^verbatim>\<open>incomingInstances\<close>. After any further
  renders, when the effect runs with \<open>B\<close> again, a control bound to \<open>B\<close> is
  constructed and its cleanup is registered.
\<close>

lemma second_arrival_constructs:
  assumes "c < length (controls st)"
    and "instance_prop p1 = B" and "lastDeps st \<noteq> Some p1"
    and "instance_prop p2 = B"
    and "lastDeps (foldl Form_step (Form_step (Form_step st (ControlChange c B)) (Render p1))
                     (map Render ps)) \<noteq> Some p2"
  shows "controls (Form_step (Form_step st (ControlChange c B)) (Render p1)) = controls st
       \<and> B \<notin> incomingInstances (Form_step (Form_step st (ControlChange c B)) (Render p1))
       \<and> controls (Form_step (foldl Form_step (Form_step (Form_step st (ControlChange c B)) (Render p1))
                     (map Render ps)) (Render p2))
           = controls (foldl Form_step (Form_step (Form_step st (ControlChange c B)) (Render p1))
                     (map Render ps)) @ [B]
       \<and> cleanup (Form_step (foldl Form_step (Form_step (Form_step st (ControlChange c B)) (Render p1))
                     (map Render ps)) (Render p2))
           = Some (B, length (controls (foldl Form_step
                     (Form_step (Form_step st (ControlChange c B)) (Render p1)) (map Render ps))))"
proof -
  let ?st1 = "Form_step (Form_step st (ControlChange c B)) (Render p1)"
  let ?st2 = "foldl Form_step ?st1 (map Render ps)"
  have first: "controls ?st1 = controls st \<and> B \<notin> incomingInstances ?st1"
    using assms(1,3,2) by (rule reconcile_step)
  then have "B \<notin> incomingInstances ?st2"
    using renders_incoming [of ?st1 ps] by blast
  then have "instance_prop p2 \<notin> incomingInstances ?st2"
    by (simp add: assms(4))
  from effect_constructs [OF this assms(5)] first show ?thesis
    by (simp add: assms(4))
qed

text \<open>
  C9 fails on the code in its second half. The component is mounted with instance 0 and
  constructs control 0; control 0 calls \<^verbatim>\<open>onChangeInstance\<close> with instance 1, and
  the effect that runs with instance 1 deletes it from \<^verbatim>\<open>incomingInstances\<close>,
  constructs nothing and returns no cleanup; control 0 calls the callback with instance
  2, which is reconciled in the same way; an undo then delivers instance 1 a second
  time. The arrival is not suppressed, and control 1 is constructed for instance 1 and
  appended, but \<^verbatim>\<open>destroy\<close> is called on no control: control 0 stays in the
  container, so the control is not remounted.
\<close>

theorem Form_second_arrival_keeps_old_control:
  "1 \<notin> incomingInstances (Form_run [Render (text_widget (0::nat)), ControlChange 0 1,
        Render (text_widget 1)])
   \<and> controls (Form_run [Render (text_widget (0::nat)), ControlChange 0 1, Render (text_widget 1)]) = [0]
   \<and> cleanup (Form_run [Render (text_widget (0::nat)), ControlChange 0 1, Render (text_widget 1),
        ControlChange 0 2, Render (text_widget 2)]) = None
   \<and> controls (Form_run [Render (text_widget (0::nat)), ControlChange 0 1, Render (text_widget 1),
        ControlChange 0 2, Render (text_widget 2), Render (text_widget 1)]) = [0, 1]
   \<and> destroyed (Form_run [Render (text_widget (0::nat)), ControlChange 0 1, Render (text_widget 1),
        ControlChange 0 2, Render (text_widget 2), Render (text_widget 1)]) = {}
   \<and> container (Form_run [Render (text_widget (0::nat)), ControlChange 0 1, Render (text_widget 1),
        ControlChange 0 2, Render (text_widget 2), Render (text_widget 1)]) = [0, 1]"
  by (simp add: Form_run_def Form_init_def Form_defs attach_ref_def text_widget_def)

section \<open>Properties of the error handler\<close>

lemma get_message_nullish: "nullish error \<Longrightarrow> get_message error = JS_undefined"
  by (auto simp: nullish_def)

lemma onError_content:
  "onError translate error notices =
     notices @ [\<lparr> status = ''error'',
                  content = nullish_coalescing (optional_message error)
                    (JS_string (translate ''An error occured while fetching or updating the widget.'')) \<rparr>]"
  by (simp add: onError_def createNotice_def)

text \<open>
  C7. For every error given to \<^verbatim>\<open>onError\<close>, one notice is added. Its status is
  \<^verbatim>\<open>error\<close>. Its content is the message of the error when the error has one (the
  error and its message are neither \<^verbatim>\<open>null\<close> nor \<^verbatim>\<open>undefined\<close>), and otherwise
  the text \<^verbatim>\<open>An error occured while fetching or updating the widget.\<close> as the
  translation function returns it.
\<close>

theorem onError_notice:
  "onError translate error notices =
     notices @ [\<lparr> status = ''error'',
                  content =
                    (if nullish error \<or> nullish (get_message error)
                     then JS_string (translate ''An error occured while fetching or updating the widget.'')
                     else get_message error) \<rparr>]"
  unfolding onError_content
  by (auto simp: nullish_coalescing_def optional_message_def nullish_def)

theorem onError_notice_witness:
  "onError (\<lambda>s. s) (JS_object [(''message'', JS_string ''Not found'')]) []
     = [\<lparr> status = ''error'', content = JS_string ''Not found'' \<rparr>]
   \<and> onError (\<lambda>s. s) (JS_object []) []
     = [\<lparr> status = ''error'',
          content = JS_string ''An error occured while fetching or updating the widget.'' \<rparr>]
   \<and> onError (\<lambda>s. s) JS_undefined []
     = [\<lparr> status = ''error'',
          content = JS_string ''An error occured while fetching or updating the widget.'' \<rparr>]"
  using onError_notice [of "\<lambda>s. s" "JS_object [(''message'', JS_string ''Not found'')]" "[]"]
    onError_notice [of "\<lambda>s. s" "JS_object []" "[]"]
    onError_notice [of "\<lambda>s. s" JS_undefined "[]"]
  by (simp add: nullish_def)

text \<open>
  C10. The fallback text is used only for an error that is \<^verbatim>\<open>null\<close> or
  \<^verbatim>\<open>undefined\<close> or whose message is: every other error gives a notice with its own
  message. An error whose message is the empty string gives a notice with the empty
  string, which is not the fallback text unless that is empty itself.
\<close>

theorem onError_empty_message:
  "(\<not> nullish error \<and> \<not> nullish (get_message error) \<longrightarrow>
      onError translate error notices
        = notices @ [\<lparr> status = ''error'', content = get_message error \<rparr>])
   \<and> (get_message error = JS_string [] \<longrightarrow>
      onError translate error notices
        = notices @ [\<lparr> status = ''error'', content = JS_string [] \<rparr>]
      \<and> (translate ''An error occured while fetching or updating the widget.'' \<noteq> [] \<longrightarrow>
         content (last (onError translate error notices))
           \<noteq> JS_string (translate ''An error occured while fetching or updating the widget.'')))"
proof -
  have own: "onError translate error notices
        = notices @ [\<lparr> status = ''error'', content = get_message error \<rparr>]"
    if "\<not> nullish error" and "\<not> nullish (get_message error)"
    using that unfolding onError_content
    by (simp add: nullish_coalescing_def optional_message_def)
  have empty: "\<not> nullish error \<and> \<not> nullish (get_message error)"
    if "get_message error = JS_string []"
    using that get_message_nullish [of error] by (auto simp: nullish_def)
  show ?thesis
    using own empty by auto
qed

theorem onError_empty_message_witness:
  "\<not> nullish (JS_object [(''message'', JS_string [])])
   \<and> get_message (JS_object [(''message'', JS_string [])]) = JS_string []
   \<and> onError (\<lambda>s. s) (JS_object [(''message'', JS_string [])]) []
       = [\<lparr> status = ''error'', content = JS_string [] \<rparr>]
   \<and> content (last (onError (\<lambda>s. s) (JS_object [(''message'', JS_string [])]) []))
       \<noteq> JS_string ''An error occured while fetching or updating the widget.''"
  using onError_empty_message [of "JS_object [(''message'', JS_string [])]" "\<lambda>s. s" "[]"]
  by (simp add: nullish_def)

end
